theory Spec2Isabelle
  imports Main
begin

section \<open>The todo collection\<close>

text \<open>
  The task-list API keeps two collections in a document database: todos and users.
  A collection is modelled as the list of its documents in natural (insertion) order.
  Object ids are natural numbers; every id that reaches the model is a well-formed id
  (a malformed id string makes the database driver throw, which the handlers turn into
  a 500, and is outside the input type of the model). A point in time is an integer
  (milliseconds since the epoch), and \<open>None\<close> stands for JavaScript's \<open>null\<close>.
\<close>

type_synonym time = int
type_synonym object_id = nat

text \<open>The todo schema of the model file (models/Todo.js), one field per schema path.\<close>

record todo =
  tid :: object_id
  title :: string
  description :: string
  completed :: bool
  priority :: string
  dueDate :: "time option"
  completedAt :: "time option"
  user :: object_id
  tags :: "string list"
  category :: string
  createdAt :: time
  updatedAt :: time

text \<open>
  A reply of a route handler: the HTTP status with either the success body (a message,
  where the handler sends one, and the data) or the \<open>error\<close> string of the body.
\<close>

datatype 'a reply = Success nat "string option" 'a | Failure nat string

subsection \<open>The pre-save hook\<close>

text \<open>
  \<^verbatim>\<open>todoSchema.pre('save', ...)\<close>: when the \<open>completed\<close> path is modified, a completed
  todo without a completion time gets the current time, and a todo that is not completed
  loses its completion time. The second argument is \<open>this.isModified('completed')\<close>.
  A \<open>Date\<close> object is always truthy, so \<open>!this.completedAt\<close> is the test for \<open>null\<close>.
\<close>

definition pre_save :: "time \<Rightarrow> bool \<Rightarrow> todo \<Rightarrow> todo" where
  "pre_save now modified t =
     (if modified then
        (if completed t \<and> completedAt t = None then t\<lparr>completedAt := Some now\<rparr>
         else if \<not> completed t then t\<lparr>completedAt := None\<rparr>
         else t)
      else t)"

text \<open>
  \<open>Model.findById\<close> and \<open>doc.save()\<close> on a document that was loaded from the
  collection. \<open>save\<close> runs the hook, with \<open>isModified('completed')\<close> true exactly when
  the value differs from the loaded one, lets the schema's \<open>timestamps\<close> option stamp
  \<open>updatedAt\<close> on a changed document, and writes the document back under its id.
\<close>

definition findById :: "todo list \<Rightarrow> object_id \<Rightarrow> todo option" where
  "findById db i = find (\<lambda>t. tid t = i) db"

definition store :: "todo \<Rightarrow> todo list \<Rightarrow> todo list" where
  "store t db = map (\<lambda>x. if tid x = tid t then t else x) db"

definition hooked :: "time \<Rightarrow> todo \<Rightarrow> todo \<Rightarrow> todo" where
  "hooked now loaded t =
     (let t' = pre_save now (completed t \<noteq> completed loaded) t
      in if t' = loaded then t' else t'\<lparr>updatedAt := now\<rparr>)"

subsection \<open>Ownership check\<close>

text \<open>
  \<open>checkResourceOwnership(Todo)\<close> of middleware/auth.js: 404 when the id resolves to
  nothing, 403 when the todo's owner is not the caller, else the todo is handed on as
  \<open>req.resource\<close>.
\<close>

definition checkResourceOwnership :: "todo list \<Rightarrow> object_id \<Rightarrow> object_id \<Rightarrow> (nat \<times> string) + todo" where
  "checkResourceOwnership db caller i =
     (case findById db i of
        None \<Rightarrow> Inl (404, ''Resource not found'')
      | Some r \<Rightarrow>
          if user r \<noteq> caller
          then Inl (403, ''Access denied. You can only access your own resources.'')
          else Inr r)"

subsection \<open>What the handlers take from their libraries\<close>

text \<open>
  Two library functions decide results and are parameters of the model: the database's
  regular-expression engine with the option \<open>i\<close> (\<open>regex_compile p\<close> is \<open>None\<close> when the
  engine rejects the pattern \<open>p\<close>, else the caseless search of \<open>p\<close> in a subject
  string), and JavaScript's \<open>new Date(s)\<close> (\<open>None\<close> for an invalid date).
\<close>

record lib =
  regex_compile :: "string \<Rightarrow> (string \<Rightarrow> bool) option"
  new_Date :: "string \<Rightarrow> time option"

subsection \<open>Strings\<close>

text \<open>
  Strings are byte strings and the model is exact on ASCII text. \<open>is_ws\<close> is the ASCII
  part of JavaScript's white space (TAB, LF, VT, FF, CR, SP), \<open>trim\<close> is
  \<open>String.prototype.trim\<close>, which is also the schema's \<open>trim: true\<close> setter.
\<close>

definition is_ws :: "char \<Rightarrow> bool" where
  "is_ws c = (of_char c \<in> {9, 10, 11, 12, 13, 32 :: nat})"

definition trim :: "string \<Rightarrow> string" where
  "trim s = rev (dropWhile is_ws (rev (dropWhile is_ws s)))"

subsection \<open>Schema validation\<close>

text \<open>
  The validators of the schema, run by \<open>save\<close> before the hook: the list of messages is
  empty when the document is valid. The enum message is Mongoose's default one.
\<close>

definition validate :: "todo \<Rightarrow> string list" where
  "validate t =
     (if title t = [] then [''Todo title is required''] else []) @
     (if length (title t) > 200 then [''Todo title cannot exceed 200 characters''] else []) @
     (if length (description t) > 1000
      then [''Todo description cannot exceed 1000 characters''] else []) @
     (if priority t \<notin> set [''low'', ''medium'', ''high'']
      then [''priority is not a valid enum value''] else []) @
     (if list_ex (\<lambda>g. length g > 30) (tags t) then [''Tag cannot exceed 30 characters''] else []) @
     (if length (category t) > 50 then [''Category cannot exceed 50 characters''] else [])"

subsection \<open>POST /api/todos\<close>

text \<open>
  The body fields the handler destructures; \<open>None\<close> is an absent field. Nothing else of
  the body is read, so a new todo always starts with the schema defaults
  \<open>completed = false\<close> and \<open>completedAt = null\<close>, and the hook sees no modified
  \<open>completed\<close> path. The fresh id stands for the ObjectId the driver generates. Of an
  error body only the \<open>error\<close> string is kept.
\<close>

record create_body =
  b_title :: "string option"
  b_description :: "string option"
  b_priority :: "string option"
  b_dueDate :: "string option"
  b_category :: "string option"
  b_tags :: "string list option"

text \<open>
  JavaScript's truthiness of a string field that may be absent: \<open>undefined\<close> and the
  empty string are falsy. \<open>or_else v d\<close> is \<open>v || d\<close>.
\<close>

definition truthy :: "string option \<Rightarrow> bool" where
  "truthy v = (case v of None \<Rightarrow> False | Some s \<Rightarrow> s \<noteq> [])"

definition or_else :: "string option \<Rightarrow> string \<Rightarrow> string" where
  "or_else v d = (case v of None \<Rightarrow> d | Some s \<Rightarrow> if s = [] then d else s)"

definition fresh_id :: "todo list \<Rightarrow> object_id" where
  "fresh_id db = Suc (foldr max (map tid db) 0)"

definition create :: "lib \<Rightarrow> time \<Rightarrow> object_id \<Rightarrow> create_body \<Rightarrow> todo list \<Rightarrow> todo reply \<times> todo list" where
  "create L now caller b db =
     (if \<not> truthy (b_title b) \<or> length (trim (or_else (b_title b) [])) = 0
      then (Failure 400 ''Todo title is required'', db)
      else
        (let due = (if truthy (b_dueDate b) then new_Date L (or_else (b_dueDate b) []) else None);
             t = \<lparr>tid = fresh_id db,
                  title = trim (or_else (b_title b) []),
                  description = trim (or_else (b_description b) []),
                  completed = False,
                  priority = or_else (b_priority b) ''medium'',
                  dueDate = due,
                  completedAt = None,
                  user = caller,
                  tags = map trim (case b_tags b of None \<Rightarrow> [] | Some g \<Rightarrow> g),
                  category = trim (or_else (b_category b) ''general''),
                  createdAt = now,
                  updatedAt = now\<rparr>;
             t' = pre_save now False t
         in if (truthy (b_dueDate b) \<and> due = None) \<or> validate t \<noteq> []
            then (Failure 400 ''Validation failed'', db)
            else (Success 201 (Some ''Todo created successfully'') t', db @ [t'])))"

subsection \<open>PUT /api/todos/:id\<close>

text \<open>
  The body restricted to \<open>allowedUpdates\<close>; every other key is dropped by the handler.
  \<open>completedAt\<close> is not among them. The update loop keeps a falsy value as it is and
  trims or parses a truthy one; an empty \<open>dueDate\<close> string is cast to \<open>null\<close> by the
  schema.
\<close>

record update_body =
  u_title :: "string option"
  u_description :: "string option"
  u_completed :: "bool option"
  u_priority :: "string option"
  u_dueDate :: "string option"
  u_category :: "string option"
  u_tags :: "string list option"

definition no_updates :: "update_body \<Rightarrow> bool" where
  "no_updates u =
     (u_title u = None \<and> u_description u = None \<and> u_completed u = None \<and> u_priority u = None
      \<and> u_dueDate u = None \<and> u_category u = None \<and> u_tags u = None)"

definition assign :: "lib \<Rightarrow> update_body \<Rightarrow> todo \<Rightarrow> todo" where
  "assign L u r =
     r\<lparr>title := (case u_title u of None \<Rightarrow> title r | Some s \<Rightarrow> trim s),
       description := (case u_description u of None \<Rightarrow> description r | Some s \<Rightarrow> trim s),
       completed := (case u_completed u of None \<Rightarrow> completed r | Some c \<Rightarrow> c),
       priority := (case u_priority u of None \<Rightarrow> priority r | Some s \<Rightarrow> s),
       dueDate := (case u_dueDate u of None \<Rightarrow> dueDate r
                   | Some s \<Rightarrow> if s = [] then None else new_Date L s),
       category := (case u_category u of None \<Rightarrow> category r | Some s \<Rightarrow> trim s),
       tags := (case u_tags u of None \<Rightarrow> tags r | Some g \<Rightarrow> map trim g)\<rparr>"

definition update :: "lib \<Rightarrow> time \<Rightarrow> object_id \<Rightarrow> object_id \<Rightarrow> update_body \<Rightarrow> todo list \<Rightarrow> todo reply \<times> todo list" where
  "update L now caller i u db =
     (case checkResourceOwnership db caller i of
        Inl (st, e) \<Rightarrow> (Failure st e, db)
      | Inr r \<Rightarrow>
          if no_updates u then (Failure 400 ''No valid fields to update'', db)
          else if truthy (map_option trim (u_title u)) \<and> length (trim (or_else (u_title u) [])) = 0
          then (Failure 400 ''Todo title cannot be empty'', db)
          else
            (let a = assign L u r in
             if (truthy (u_dueDate u) \<and> new_Date L (or_else (u_dueDate u) []) = None)
                \<or> validate a \<noteq> []
             then (Failure 400 ''Validation failed'', db)
             else (let t = hooked now r a
                   in (Success 200 (Some ''Todo updated successfully'') t, store t db))))"

subsection \<open>PATCH /api/todos/:id/toggle\<close>


subsection \<open>DELETE /api/todos (bulk delete)\<close>

text \<open>
  \<open>ids\<close> is \<open>None\<close> when the body has no \<open>ids\<close> or it is not an array. The guard
  rejects that and the empty array with 400. \<open>deleteMany\<close> removes the documents whose
  id is in the list and whose owner is the caller, and reports how many it removed. The
  message text, which repeats the count, is not modelled.
\<close>

definition selected :: "object_id \<Rightarrow> object_id list \<Rightarrow> todo \<Rightarrow> bool" where
  "selected caller ids t = (tid t \<in> set ids \<and> user t = caller)"

definition bulk_delete :: "object_id \<Rightarrow> object_id list option \<Rightarrow> todo list \<Rightarrow> nat reply \<times> todo list" where
  "bulk_delete caller ids db =
     (case ids of
        None \<Rightarrow> (Failure 400 ''Todo IDs array is required'', db)
      | Some l \<Rightarrow>
          if length l = 0 then (Failure 400 ''Todo IDs array is required'', db)
          else (Success 200 None (length (filter (selected caller l) db)),
                filter (\<lambda>t. \<not> selected caller l t) db))"

subsection \<open>PATCH /api/todos/bulk-update\<close>

text \<open>
  The \<open>updates\<close> object restricted to \<open>completed\<close>, \<open>priority\<close> and \<open>category\<close>
  (\<open>None\<close> when the body has no \<open>updates\<close> object). \<open>Todo.updateMany\<close> writes the
  given fields into every selected document and stamps \<open>updatedAt\<close>; it is a query, not
  a \<open>save\<close>: neither the validators nor the pre-save hook run, so \<open>completedAt\<close> is
  not touched. \<open>modifiedCount\<close> counts the documents the write changed.
\<close>

record bulk_updates =
  bu_completed :: "bool option"
  bu_priority :: "string option"
  bu_category :: "string option"

definition set_fields :: "time \<Rightarrow> bulk_updates \<Rightarrow> todo \<Rightarrow> todo" where
  "set_fields now u t =
     t\<lparr>completed := (case bu_completed u of None \<Rightarrow> completed t | Some c \<Rightarrow> c),
       priority := (case bu_priority u of None \<Rightarrow> priority t | Some s \<Rightarrow> s),
       category := (case bu_category u of None \<Rightarrow> category t | Some s \<Rightarrow> trim s),
       updatedAt := now\<rparr>"

definition bulk_update :: "time \<Rightarrow> object_id \<Rightarrow> object_id list option \<Rightarrow> bulk_updates option \<Rightarrow> todo list \<Rightarrow> nat reply \<times> todo list" where
  "bulk_update now caller ids updates db =
     (case ids of
        None \<Rightarrow> (Failure 400 ''Todo IDs array is required'', db)
      | Some l \<Rightarrow>
          if length l = 0 then (Failure 400 ''Todo IDs array is required'', db)
          else
            (case updates of
               None \<Rightarrow> (Failure 400 ''Updates object is required'', db)
             | Some u \<Rightarrow>
                 if bu_completed u = None \<and> bu_priority u = None \<and> bu_category u = None
                 then (Failure 400 ''No valid fields to update'', db)
                 else
                   (Success 200 None
                      (length (filter (\<lambda>t. selected caller l t \<and> set_fields now u t \<noteq> t) db)),
                    map (\<lambda>t. if selected caller l t then set_fields now u t else t) db)))"

section \<open>Listing and searching\<close>

subsection \<open>Numbers and parseInt\<close>

text \<open>
  A JavaScript number as \<open>parseInt\<close> can return it: \<open>NaN\<close>, an integer that a double
  represents, or an infinity. \<open>to_double n\<close> is the double nearest to the natural number
  \<open>n\<close>: \<open>n\<close> itself below \<open>2^53\<close>, else \<open>n\<close> rounded to 53 significant bits, a tie going
  to the even mantissa, and \<open>None\<close> (infinity) when the rounded value reaches \<open>2^1024\<close>.
  \<open>halvings k n\<close> counts how often \<open>n\<close> must be halved to fall below \<open>2^53\<close>, at most
  \<open>k\<close> times.
\<close>

datatype number = NaN | Num int | Infinity | Minus_Infinity

fun halvings :: "nat \<Rightarrow> nat \<Rightarrow> nat" where
  "halvings 0 n = 0"
| "halvings (Suc k) n = (if n < 2 ^ 53 then 0 else Suc (halvings k (n div 2)))"

definition to_double :: "nat \<Rightarrow> nat option" where
  "to_double n =
     (let e = halvings 1024 n;
          q = n div 2 ^ e;
          r = n mod 2 ^ e;
          q' = (if 2 * r > 2 ^ e \<or> (2 * r = 2 ^ e \<and> odd q) then q + 1 else q)
      in if q' * 2 ^ e \<ge> 2 ^ 1024 then None else Some (q' * 2 ^ e))"

definition signed :: "bool \<Rightarrow> nat option \<Rightarrow> number" where
  "signed neg v =
     (case v of
        None \<Rightarrow> if neg then Minus_Infinity else Infinity
      | Some d \<Rightarrow> Num (if neg then - int d else int d))"

text \<open>
  JavaScript's \<open>parseInt(v)\<close> on a query parameter, \<open>None\<close> standing for an absent
  parameter. The argument is converted to a string (\<open>undefined\<close> gives a string with no
  digit in front, hence \<open>NaN\<close>); leading white space is skipped, then an optional sign,
  then an optional \<open>0x\<close> or \<open>0X\<close> that selects radix 16, and the longest prefix of digits
  of the radix is read; with no digit the result is \<open>NaN\<close>, else the double nearest to
  the integer read, with the sign. Past 20 significant decimal digits the language
  leaves the approximation to the implementation; the model rounds the exact integer.
  A parameter given more than once reaches the handler as an array and is outside the
  model.
\<close>

definition digit_of :: "char \<Rightarrow> nat option" where
  "digit_of c =
     (let n = (of_char c :: nat) in
      if 48 \<le> n \<and> n \<le> 57 then Some (n - 48)
      else if 97 \<le> n \<and> n \<le> 122 then Some (n - 87)
      else if 65 \<le> n \<and> n \<le> 90 then Some (n - 55)
      else None)"

definition in_radix :: "nat \<Rightarrow> char \<Rightarrow> bool" where
  "in_radix r c = (case digit_of c of None \<Rightarrow> False | Some d \<Rightarrow> d < r)"

definition digits_value :: "nat \<Rightarrow> string \<Rightarrow> nat" where
  "digits_value r ds = foldl (\<lambda>a c. a * r + (case digit_of c of None \<Rightarrow> 0 | Some d \<Rightarrow> d)) 0 ds"

definition parseInt :: "string option \<Rightarrow> number" where
  "parseInt v =
     (case v of
        None \<Rightarrow> NaN
      | Some s \<Rightarrow>
          (let s1 = dropWhile is_ws s;
               neg = (take 1 s1 = ''-'');
               s2 = (if take 1 s1 = ''-'' \<or> take 1 s1 = ''+'' then drop 1 s1 else s1);
               hex = (take 2 s2 = ''0x'' \<or> take 2 s2 = ''0X'');
               r = (if hex then 16 else 10);
               ds = takeWhile (in_radix r) (if hex then drop 2 s2 else s2)
           in if ds = [] then NaN else signed neg (to_double (digits_value r ds))))"

text \<open>
  \<open>parseInt(v) || d\<close>: \<open>NaN\<close> and zero are falsy, every other number is kept.
\<close>

definition or_default :: "number \<Rightarrow> int \<Rightarrow> number" where
  "or_default n d =
     (case n of
        NaN \<Rightarrow> Num d
      | Num k \<Rightarrow> if k = 0 then Num d else Num k
      | Infinity \<Rightarrow> Infinity
      | Minus_Infinity \<Rightarrow> Minus_Infinity)"

text \<open>
  What the database reads from a limit or a skip: the number must be a 64-bit integer
  (the driver negates a negative limit before it sends it), else the query is refused.
\<close>

definition int64 :: "number \<Rightarrow> int option" where
  "int64 x = (case x of Num k \<Rightarrow> if \<bar>k\<bar> < 2 ^ 63 then Some k else None | _ \<Rightarrow> None)"

subsection \<open>Sort orders\<close>

text \<open>
  The database compares strings byte by byte (\<open>str_less\<close>), \<open>false\<close> before \<open>true\<close>
  and \<open>null\<close> before every date. \<open>precedes s a b\<close> says that \<open>a\<close> may stand before
  \<open>b\<close> under the sort document \<open>s\<close> of the \<open>switch\<close> in \<open>getUserTodos\<close>: key
  \<open>1\<close> is ascending, \<open>-1\<close> descending, the second key breaks ties of the first.
  Documents that agree on all keys keep their natural order in the model (the database
  promises no order for them).
\<close>

fun str_less :: "string \<Rightarrow> string \<Rightarrow> bool" where
  "str_less [] [] = False"
| "str_less [] (y # ys) = True"
| "str_less (x # xs) [] = False"
| "str_less (x # xs) (y # ys) = ((of_char x :: nat) < of_char y \<or> (x = y \<and> str_less xs ys))"

fun date_less :: "time option \<Rightarrow> time option \<Rightarrow> bool" where
  "date_less None None = False"
| "date_less None (Some y) = True"
| "date_less (Some x) None = False"
| "date_less (Some x) (Some y) = (x < y)"

datatype sort_doc = By_createdAt | By_dueDate | By_priority | By_title | By_completed

definition sort_of :: "string option \<Rightarrow> sort_doc" where
  "sort_of sortBy =
     (case sortBy of
        None \<Rightarrow> By_createdAt
      | Some s \<Rightarrow>
          if s = ''dueDate'' then By_dueDate
          else if s = ''priority'' then By_priority
          else if s = ''title'' then By_title
          else if s = ''completed'' then By_completed
          else By_createdAt)"

fun precedes :: "sort_doc \<Rightarrow> todo \<Rightarrow> todo \<Rightarrow> bool" where
  "precedes By_createdAt a b = (createdAt b \<le> createdAt a)"
| "precedes By_dueDate a b =
     (date_less (dueDate a) (dueDate b) \<or> (dueDate a = dueDate b \<and> createdAt b \<le> createdAt a))"
| "precedes By_priority a b =
     (str_less (priority b) (priority a) \<or> (priority a = priority b \<and> createdAt b \<le> createdAt a))"
| "precedes By_title a b = (\<not> str_less (title b) (title a))"
| "precedes By_completed a b =
     ((\<not> completed a \<and> completed b) \<or> (completed a = completed b \<and> createdAt b \<le> createdAt a))"

fun insert_by :: "('a \<Rightarrow> 'a \<Rightarrow> bool) \<Rightarrow> 'a \<Rightarrow> 'a list \<Rightarrow> 'a list" where
  "insert_by le x [] = [x]"
| "insert_by le x (y # ys) = (if le x y then x # y # ys else y # insert_by le x ys)"

definition sort_by :: "('a \<Rightarrow> 'a \<Rightarrow> bool) \<Rightarrow> 'a list \<Rightarrow> 'a list" where
  "sort_by le xs = foldr (insert_by le) xs []"

subsection \<open>The query\<close>

text \<open>
  What can make the database reject a query: a pattern the regular-expression engine
  refuses, an invalid date in a date bound, a negative \<open>skip\<close>, a limit or skip that
  is no 64-bit integer.
\<close>

datatype query_error = Regex_rejected | Date_invalid | Skip_negative | Number_out_of_range

text \<open>
  \<open>find(query).sort(sort).limit(limit).skip(skip)\<close>: the matching documents are sorted,
  \<open>skip\<close> of them are passed over and at most \<open>limit\<close> returned, whatever the order of
  the two calls. The driver sends a negative limit as its absolute value and reads
  \<open>0\<close> as no limit. \<open>countDocuments\<close> counts the matching documents.
\<close>

definition find_page :: "(todo \<Rightarrow> bool) \<Rightarrow> sort_doc \<Rightarrow> int \<Rightarrow> int \<Rightarrow> todo list \<Rightarrow> query_error + todo list" where
  "find_page q s lim skp db =
     (if skp < 0 then Inl Skip_negative
      else
        (let xs = drop (nat skp) (sort_by (precedes s) (filter q db))
         in Inr (if lim = 0 then xs else take (nat \<bar>lim\<bar>) xs)))"

definition countDocuments :: "(todo \<Rightarrow> bool) \<Rightarrow> todo list \<Rightarrow> int" where
  "countDocuments q db = int (length (filter q db))"

text \<open>
  The two regular-expression clauses \<open>$or: [{title: {$regex: s, $options: 'i'}},
  {description: {$regex: s, $options: 'i'}}]\<close>.
\<close>

definition regex_clause :: "lib \<Rightarrow> string \<Rightarrow> query_error + (todo \<Rightarrow> bool)" where
  "regex_clause L s =
     (case regex_compile L s of
        None \<Rightarrow> Inl Regex_rejected
      | Some m \<Rightarrow> Inr (\<lambda>t. m (title t) \<or> m (description t)))"

definition date_bound :: "lib \<Rightarrow> string option \<Rightarrow> query_error + time option" where
  "date_bound L v =
     (case v of
        None \<Rightarrow> Inr None
      | Some s \<Rightarrow>
          if s = [] then Inr None
          else (case new_Date L s of None \<Rightarrow> Inl Date_invalid | Some d \<Rightarrow> Inr (Some d)))"

subsection \<open>getUserTodos\<close>

record filters =
  f_completed :: "bool option"
  f_priority :: "string option"
  f_category :: "string option"
  f_search :: "string option"
  f_sortBy :: "string option"
  f_limit :: "string option"
  f_skip :: "string option"
  f_startDate :: "string option"
  f_endDate :: "string option"
  f_dueBefore :: "string option"

record page =
  todos :: "todo list"
  total :: int
  limit :: int
  skip :: int
  hasMore :: bool

text \<open>
  The query object that \<open>getUserTodos\<close> builds: the owner always, every other clause
  only when its filter is set (truthy; \<open>completed\<close> when it is not \<open>undefined\<close>).
  The query value of \<open>category\<close> goes through the schema's \<open>trim\<close> setter when the
  query is cast; \<open>priority\<close> has no setter, and a pattern of \<open>$regex\<close> is not touched.
  A comparison with a date never selects a document whose date is \<open>null\<close>.
\<close>

definition build_query :: "lib \<Rightarrow> object_id \<Rightarrow> filters \<Rightarrow> query_error + (todo \<Rightarrow> bool)" where
  "build_query L userId f =
     (case (if truthy (f_search f) then regex_clause L (or_else (f_search f) [])
            else Inr (\<lambda>t. True)) of
        Inl e \<Rightarrow> Inl e
      | Inr found \<Rightarrow>
     (case date_bound L (f_startDate f) of
        Inl e \<Rightarrow> Inl e
      | Inr startDate \<Rightarrow>
     (case date_bound L (f_endDate f) of
        Inl e \<Rightarrow> Inl e
      | Inr endDate \<Rightarrow>
     (case date_bound L (f_dueBefore f) of
        Inl e \<Rightarrow> Inl e
      | Inr dueBefore \<Rightarrow>
          Inr (\<lambda>t. user t = userId
                 \<and> (case f_completed f of None \<Rightarrow> True | Some c \<Rightarrow> completed t = c)
                 \<and> (if truthy (f_priority f) then priority t = or_else (f_priority f) [] else True)
                 \<and> (if truthy (f_category f) then category t = trim (or_else (f_category f) [])
                     else True)
                 \<and> found t
                 \<and> (case startDate of None \<Rightarrow> True | Some d \<Rightarrow> d \<le> createdAt t)
                 \<and> (case endDate of None \<Rightarrow> True | Some d \<Rightarrow> createdAt t \<le> d)
                 \<and> (case dueBefore of None \<Rightarrow> True
                     | Some d \<Rightarrow> (case dueDate t of None \<Rightarrow> False | Some x \<Rightarrow> x \<le> d)))))))"

definition effective_limit :: "string option \<Rightarrow> number" where
  "effective_limit v = or_default (parseInt v) 50"

definition effective_skip :: "string option \<Rightarrow> number" where
  "effective_skip v = or_default (parseInt v) 0"

text \<open>
  \<open>getUserTodos\<close>: the page, the count and the two numbers. A result exists only when
  the database took the limit and the skip, so both are integers there. \<open>hasMore\<close> adds
  and compares as integers, as JavaScript does while the numbers stay below \<open>2^53\<close>.
  The population of the owner into each todo changes no field of the model.
\<close>

definition getUserTodos :: "lib \<Rightarrow> object_id \<Rightarrow> filters \<Rightarrow> todo list \<Rightarrow> query_error + page" where
  "getUserTodos L userId f db =
     (case build_query L userId f of
        Inl e \<Rightarrow> Inl e
      | Inr query \<Rightarrow>
          (case (int64 (effective_limit (f_limit f)), int64 (effective_skip (f_skip f))) of
             (Some lim, Some skp) \<Rightarrow>
               (case find_page query (sort_of (f_sortBy f)) lim skp db of
                  Inl e \<Rightarrow> Inl e
                | Inr found \<Rightarrow>
                    (let n = countDocuments query db
                     in Inr \<lparr>todos = found, total = n, limit = lim, skip = skp,
                             hasMore = (n > skp + int (length found))\<rparr>))
           | _ \<Rightarrow> Inl Number_out_of_range))"


subsection \<open>GET /api/todos/search/:query\<close>

record search_page = page +
  searchQuery :: string

definition search :: "lib \<Rightarrow> object_id \<Rightarrow> string \<Rightarrow> string option \<Rightarrow> string option \<Rightarrow> todo list \<Rightarrow> search_page reply" where
  "search L caller q limit_param skip_param db =
     (case regex_clause L q of
        Inl e \<Rightarrow> Failure 500 ''Failed to search todos''
      | Inr found \<Rightarrow>
          (case (int64 (or_default (parseInt limit_param) 20),
                 int64 (or_default (parseInt skip_param) 0)) of
             (Some lim, Some skp) \<Rightarrow>
               (case find_page (\<lambda>t. user t = caller \<and> found t) By_createdAt lim skp db of
                  Inl e \<Rightarrow> Failure 500 ''Failed to search todos''
                | Inr ts \<Rightarrow>
                    (let n = countDocuments (\<lambda>t. user t = caller \<and> found t) db
                     in Success 200 None
                          \<lparr>todos = ts, total = n, limit = lim, skip = skp,
                            hasMore = (n > skp + int (length ts)), searchQuery = q\<rparr>))
           | _ \<Rightarrow> Failure 500 ''Failed to search todos''))"

section \<open>Users, tokens and sessions\<close>

text \<open>
  A user document, with the fields the handlers of routes/auth.js and middleware/auth.js
  read. Each active refresh token is kept with its time of issue.
\<close>

record user_doc =
  uid :: object_id
  username :: string
  email :: string
  firstName :: string
  lastName :: string
  password :: string
  isActive :: bool
  refreshTokens :: "(string \<times> time) list"
  lastActive :: time

text \<open>
  The outcome of \<open>jwt.verify\<close>: the decoded payload (\<open>userId\<close> and, in a refresh
  token, \<open>type\<close>), or one of the errors the middleware tells apart by name, or any
  other error. Signing and verifying belong to the token library and are parameters, as
  are the password hash and the validators of the user schema.
\<close>

record claims =
  c_userId :: object_id
  c_type :: "string option"

datatype verified = Decoded claims | TokenExpiredError | JsonWebTokenError | Other_error

record auth_lib =
  verify_access :: "string \<Rightarrow> verified"
  verify_refresh :: "string \<Rightarrow> verified"
  sign_access :: "time \<Rightarrow> object_id \<Rightarrow> string"
  sign_refresh :: "time \<Rightarrow> object_id \<Rightarrow> string"
  hash :: "string \<Rightarrow> string"
  user_errors :: "user_doc \<Rightarrow> string list"

definition generateTokens :: "auth_lib \<Rightarrow> time \<Rightarrow> object_id \<Rightarrow> string \<times> string" where
  "generateTokens A now userId = (sign_access A now userId, sign_refresh A now userId)"

definition findUser :: "user_doc list \<Rightarrow> object_id \<Rightarrow> user_doc option" where
  "findUser users i = find (\<lambda>u. uid u = i) users"

definition store_user :: "user_doc \<Rightarrow> user_doc list \<Rightarrow> user_doc list" where
  "store_user u users = map (\<lambda>x. if uid x = uid u then u else x) users"

text \<open>
  Modelled from the spec: \<open>addRefreshToken\<close> of the user model (models/User.js, not
  among the sources). The credential store "manages a set of active refresh tokens per
  user", each "tagged with issuance time"; rotation is "old token removed, new token
  added".
\<close>

definition addRefreshToken :: "time \<Rightarrow> string \<Rightarrow> user_doc \<Rightarrow> user_doc" where
  "addRefreshToken now tok u = u\<lparr>refreshTokens := refreshTokens u @ [(tok, now)]\<rparr>"

text \<open>
  Modelled from the spec: \<open>removeRefreshToken\<close> of the user model (models/User.js, not
  among the sources). Logout is to "revoke one refresh token": the token leaves the
  user's set.
\<close>

definition removeRefreshToken :: "string \<Rightarrow> user_doc \<Rightarrow> user_doc" where
  "removeRefreshToken tok u = u\<lparr>refreshTokens := filter (\<lambda>rt. fst rt \<noteq> tok) (refreshTokens u)\<rparr>"

text \<open>
  Modelled from the spec: \<open>updateLastActive\<close> of the user model (models/User.js, not
  among the sources). Required auth is to "refresh the user's last-active timestamp as a
  side effect".
\<close>

definition updateLastActive :: "time \<Rightarrow> user_doc \<Rightarrow> user_doc" where
  "updateLastActive now u = u\<lparr>lastActive := now\<rparr>"

subsection \<open>Required authentication\<close>

text \<open>The \<open>Authorization\<close> header, \<open>None\<close> when the request has none.\<close>

definition authenticate :: "auth_lib \<Rightarrow> time \<Rightarrow> string option \<Rightarrow> user_doc list \<Rightarrow> ((nat \<times> string) + user_doc) \<times> user_doc list" where
  "authenticate A now authHeader users =
     (case authHeader of
        None \<Rightarrow> (Inl (401, ''Access denied. No token provided.''), users)
      | Some h \<Rightarrow>
          if take 7 h \<noteq> ''Bearer '' then (Inl (401, ''Access denied. No token provided.''), users)
          else if drop 7 h = [] then (Inl (401, ''Access denied. No token provided.''), users)
          else
            (case verify_access A (drop 7 h) of
               TokenExpiredError \<Rightarrow> (Inl (401, ''Token expired''), users)
             | JsonWebTokenError \<Rightarrow> (Inl (401, ''Invalid token''), users)
             | Other_error \<Rightarrow> (Inl (500, ''Authentication failed''), users)
             | Decoded c \<Rightarrow>
                 (case findUser users (c_userId c) of
                    None \<Rightarrow> (Inl (401, ''Invalid token. User not found.''), users)
                  | Some u \<Rightarrow>
                      if \<not> isActive u then (Inl (401, ''Invalid token. User not found.''), users)
                      else (let u' = updateLastActive now u
                            in (Inr u', store_user u' users)))))"

subsection \<open>Refresh-token validation and POST /api/auth/refresh\<close>

text \<open>
  \<open>validateRefreshToken\<close>: the argument is \<open>req.body.refreshToken\<close>. On success the
  user and the presented token are handed to the route handler.
\<close>

definition tokenExists :: "user_doc \<Rightarrow> string \<Rightarrow> bool" where
  "tokenExists u tok = list_ex (\<lambda>rt. fst rt = tok) (refreshTokens u)"

definition validateRefreshToken :: "auth_lib \<Rightarrow> user_doc list \<Rightarrow> string option \<Rightarrow> (nat \<times> string) + (user_doc \<times> string)" where
  "validateRefreshToken A users refreshToken =
     (if \<not> truthy refreshToken then Inl (401, ''Refresh token is required'')
      else
        (let tok = or_else refreshToken [] in
         case verify_refresh A tok of
           TokenExpiredError \<Rightarrow> Inl (401, ''Refresh token expired'')
         | JsonWebTokenError \<Rightarrow> Inl (401, ''Invalid refresh token'')
         | Other_error \<Rightarrow> Inl (500, ''Refresh token validation failed'')
         | Decoded c \<Rightarrow>
             if c_type c \<noteq> Some ''refresh'' then Inl (401, ''Invalid refresh token'')
             else
               (case findUser users (c_userId c) of
                  None \<Rightarrow> Inl (401, ''Invalid refresh token. User not found.'')
                | Some u \<Rightarrow>
                    if \<not> isActive u then Inl (401, ''Invalid refresh token. User not found.'')
                    else if \<not> tokenExists u tok then Inl (401, ''Invalid refresh token'')
                    else Inr (u, tok))))"

text \<open>The data of a successful reply is the new pair (access token, refresh token).\<close>

definition refresh :: "auth_lib \<Rightarrow> time \<Rightarrow> string option \<Rightarrow> user_doc list \<Rightarrow> (string \<times> string) reply \<times> user_doc list" where
  "refresh A now refreshToken users =
     (case validateRefreshToken A users refreshToken of
        Inl (st, e) \<Rightarrow> (Failure st e, users)
      | Inr (u, oldRefreshToken) \<Rightarrow>
          (let (accessToken, newRefreshToken) = generateTokens A now (uid u);
               u1 = removeRefreshToken oldRefreshToken u;
               u2 = addRefreshToken now newRefreshToken u1
           in (Success 200 (Some ''Token refreshed successfully'') (accessToken, newRefreshToken),
               store_user u2 users)))"

subsection \<open>POST /api/auth/logout\<close>

text \<open>
  The handler behind \<open>authenticate\<close>: \<open>refreshToken\<close> is the body's field, \<open>None\<close>
  when the body has none. A falsy value skips the removal.
\<close>

definition logout_handler :: "user_doc \<Rightarrow> string option \<Rightarrow> user_doc list \<Rightarrow> unit reply \<times> user_doc list" where
  "logout_handler u refreshToken users =
     (if truthy refreshToken
      then (Success 200 (Some ''Logout successful'') (),
            store_user (removeRefreshToken (or_else refreshToken []) u) users)
      else (Success 200 (Some ''Logout successful'') (), users))"

definition logout :: "auth_lib \<Rightarrow> time \<Rightarrow> string option \<Rightarrow> string option \<Rightarrow> user_doc list \<Rightarrow> unit reply \<times> user_doc list" where
  "logout A now authHeader refreshToken users =
     (case authenticate A now authHeader users of
        (Inl (st, e), users') \<Rightarrow> (Failure st e, users')
      | (Inr u, users') \<Rightarrow> logout_handler u refreshToken users')"

subsection \<open>POST /api/auth/register\<close>

record register_body =
  r_username :: "string option"
  r_email :: "string option"
  r_firstName :: "string option"
  r_lastName :: "string option"
  r_password :: "string option"

text \<open>
  \<open>User.findOne({$or: [{email}, {username}]})\<close>: the first user, in natural order, with
  that email or that username.
\<close>

definition findOne :: "string \<Rightarrow> string \<Rightarrow> user_doc list \<Rightarrow> user_doc option" where
  "findOne e n users = find (\<lambda>u. email u = e \<or> username u = n) users"

definition fresh_uid :: "user_doc list \<Rightarrow> object_id" where
  "fresh_uid users = Suc (foldr max (map uid users) 0)"

text \<open>
  Modelled from the spec: the document that \<open>new User({...})\<close> and \<open>save\<close> make of
  the five fields, by the user schema (models/User.js, not among the sources). The
  password is stored hashed ("never stored or returned in plaintext"), the user is
  active, and the set of "currently-valid refresh tokens" is empty.
\<close>

definition new_user :: "auth_lib \<Rightarrow> time \<Rightarrow> object_id \<Rightarrow> register_body \<Rightarrow> user_doc" where
  "new_user A now i b =
     \<lparr>uid = i,
      username = or_else (r_username b) [],
      email = or_else (r_email b) [],
      firstName = or_else (r_firstName b) [],
      lastName = or_else (r_lastName b) [],
      password = hash A (or_else (r_password b) []),
      isActive = True,
      refreshTokens = [],
      lastActive = now\<rparr>"

text \<open>
  The handler: all five fields must be truthy; a user found by \<open>findOne\<close> ends the
  request with the duplicate error, which names the email when the found user's email
  is the request's and the username otherwise; else the new user is saved, unless the
  validators of the schema refuse it, the token pair is generated and the refresh token
  added. The data of a successful reply is the new user with the token pair.
\<close>

definition register :: "auth_lib \<Rightarrow> time \<Rightarrow> register_body \<Rightarrow> user_doc list \<Rightarrow> (user_doc \<times> string \<times> string) reply \<times> user_doc list" where
  "register A now b users =
     (if \<not> truthy (r_username b) \<or> \<not> truthy (r_email b) \<or> \<not> truthy (r_firstName b)
         \<or> \<not> truthy (r_lastName b) \<or> \<not> truthy (r_password b)
      then (Failure 400 ''All fields are required'', users)
      else
        (case findOne (or_else (r_email b) []) (or_else (r_username b) []) users of
           Some existingUser \<Rightarrow>
             (Failure 400
                (''User with this ''
                 @ (if email existingUser = or_else (r_email b) [] then ''email'' else ''username'')
                 @ '' already exists''),
              users)
         | None \<Rightarrow>
             (let u = new_user A now (fresh_uid users) b
              in if user_errors A u \<noteq> [] then (Failure 400 ''Validation failed'', users)
                 else
                   (let (accessToken, refreshToken) = generateTokens A now (uid u);
                        u' = addRefreshToken now refreshToken u
                    in (Success 201 (Some ''User registered successfully'')
                          (u', accessToken, refreshToken),
                        users @ [u'])))))"

section \<open>Reference notions and sample data\<close>

subsection \<open>The completion invariant\<close>

text \<open>The spec's invariant of a todo: \<open>completedAt\<close> is set exactly when \<open>completed\<close> is true.\<close>

definition completion_ok :: "todo \<Rightarrow> bool" where
  "completion_ok t = (completed t = (completedAt t \<noteq> None))"

subsection \<open>Substring search, as the spec words it\<close>

text \<open>
  \<open>occurs eq s x\<close>: the string \<open>s\<close> occurs in \<open>x\<close> as a block of consecutive characters,
  each compared by \<open>eq\<close>. With the caseless comparison of characters (two characters
  are the same when their lower-case forms have the same code) this is the spec's
  "matches case-insensitively as a substring" (\<open>contains_ci\<close>).
\<close>

fun matches_at :: "(char \<Rightarrow> char \<Rightarrow> bool) \<Rightarrow> string \<Rightarrow> string \<Rightarrow> bool" where
  "matches_at eq [] x = True"
| "matches_at eq (p # ps) [] = False"
| "matches_at eq (p # ps) (c # cs) = (eq p c \<and> matches_at eq ps cs)"

fun occurs :: "(char \<Rightarrow> char \<Rightarrow> bool) \<Rightarrow> string \<Rightarrow> string \<Rightarrow> bool" where
  "occurs eq s [] = matches_at eq s []"
| "occurs eq s (c # cs) = (matches_at eq s (c # cs) \<or> occurs eq s cs)"

definition lower_code :: "char \<Rightarrow> nat" where
  "lower_code c = (let n = (of_char c :: nat) in if 65 \<le> n \<and> n \<le> 90 then n + 32 else n)"

definition same_ci :: "char \<Rightarrow> char \<Rightarrow> bool" where
  "same_ci p c = (lower_code p = lower_code c)"

definition contains_ci :: "string \<Rightarrow> string \<Rightarrow> bool" where
  "contains_ci s x = occurs same_ci s x"

subsection \<open>A regular-expression engine for the smallest fragment\<close>

text \<open>
  Patterns made of literal characters and the dot, which stands for any character but a
  line feed, searched caselessly as the option \<open>i\<close> asks. The engine is used at such
  patterns only; it refuses a pattern with any other metacharacter
  (backslash, \<open>^ $ | ? * + ( ) [ ] { }\<close>).
\<close>

definition other_meta :: "char \<Rightarrow> bool" where
  "other_meta c = (of_char c \<in> {92, 94, 36, 124, 63, 42, 43, 40, 41, 91, 93, 123, 125 :: nat})"

definition atom_matches :: "char \<Rightarrow> char \<Rightarrow> bool" where
  "atom_matches p c = (if p = CHR ''.'' then (of_char c :: nat) \<noteq> 10 else same_ci p c)"

definition dot_regex :: "string \<Rightarrow> (string \<Rightarrow> bool) option" where
  "dot_regex p = (if list_ex other_meta p then None else Some (occurs atom_matches p))"

definition sample_lib :: lib where
  "sample_lib = \<lparr>regex_compile = dot_regex, new_Date = (\<lambda>s. None)\<rparr>"

subsection \<open>Sample documents\<close>

text \<open>A todo as POST /api/todos stores it when only a title and a priority are sent.\<close>

definition sample_todo :: "object_id \<Rightarrow> object_id \<Rightarrow> string \<Rightarrow> string \<Rightarrow> time \<Rightarrow> todo" where
  "sample_todo i owner ttl prio created =
     \<lparr>tid = i, title = ttl, description = '''', completed = False, priority = prio,
      dueDate = None, completedAt = None, user = owner, tags = [], category = ''general'',
      createdAt = created, updatedAt = created\<rparr>"

definition no_filters :: filters where
  "no_filters =
     \<lparr>f_completed = None, f_priority = None, f_category = None, f_search = None,
      f_sortBy = None, f_limit = None, f_skip = None, f_startDate = None, f_endDate = None,
      f_dueBefore = None\<rparr>"

text \<open>
  A token library that signs the pair \<open>a1\<close>, \<open>r1\<close> at time 0 and \<open>a2\<close>, \<open>r2\<close>
  later, and verifies \<open>a1\<close> and \<open>r1\<close> as tokens of user 1; the user \<open>alice\<close> as the
  registration of \<open>alice_body\<close> at time 0 stores her, holding \<open>r1\<close>.
\<close>

definition sample_auth :: auth_lib where
  "sample_auth =
     \<lparr>verify_access = (\<lambda>t. if t = ''a1'' then Decoded \<lparr>c_userId = 1, c_type = None\<rparr>
                            else JsonWebTokenError),
      verify_refresh = (\<lambda>t. if t = ''r1'' then Decoded \<lparr>c_userId = 1, c_type = Some ''refresh''\<rparr>
                             else JsonWebTokenError),
      sign_access = (\<lambda>now i. if now = 0 then ''a1'' else ''a2''),
      sign_refresh = (\<lambda>now i. if now = 0 then ''r1'' else ''r2''),
      hash = (\<lambda>p. ''#'' @ p),
      user_errors = (\<lambda>u. [])\<rparr>"

definition alice :: user_doc where
  "alice =
     \<lparr>uid = 1, username = ''alice'', email = ''alice@x.com'', firstName = ''Alice'',
      lastName = ''A'', password = ''#secret1'', isActive = True,
      refreshTokens = [(''r1'', 0)], lastActive = 0\<rparr>"

definition alice_body :: register_body where
  "alice_body =
     \<lparr>r_username = Some ''alice'', r_email = Some ''alice@x.com'', r_firstName = Some ''Alice'',
      r_lastName = Some ''A'', r_password = Some ''secret1''\<rparr>"

text \<open>Three todos of user 1, created in this order with priorities low, medium, high.\<close>

definition three_todos :: "todo list" where
  "three_todos =
     [sample_todo 1 1 ''buy milk'' ''low'' 1, sample_todo 2 1 ''walk dog'' ''medium'' 2,
      sample_todo 3 1 ''pay rent'' ''high'' 3]"

section \<open>The completion pair under the mutation paths\<close>

subsection \<open>Loading and storing\<close>




subsection \<open>The hook\<close>

lemma pre_save_fields:
  "tid (pre_save now m t) = tid t" "user (pre_save now m t) = user t"
  "completed (pre_save now m t) = completed t"
  by (simp_all add: pre_save_def)

lemma pre_save_completedAt:
  "completedAt (pre_save now True t) =
     (if completed t then (case completedAt t of None \<Rightarrow> Some now | Some d \<Rightarrow> Some d) else None)"
  by (auto simp add: pre_save_def split: option.splits)

lemma pre_save_unmodified: "pre_save now False t = t"
  by (simp add: pre_save_def)

text \<open>Once the hook sees a modified \<open>completed\<close> path, the pair is consistent.\<close>

lemma pre_save_completion_ok: "completion_ok (pre_save now True t)"
  by (simp add: completion_ok_def pre_save_completedAt pre_save_fields split: option.splits)

lemma hooked_cases:
  "hooked now r t = pre_save now (completed t \<noteq> completed r) t
   \<or> hooked now r t = (pre_save now (completed t \<noteq> completed r) t)\<lparr>updatedAt := now\<rparr>"
  by (simp add: hooked_def Let_def)

lemma hooked_fields:
  "tid (hooked now r t) = tid t" "user (hooked now r t) = user t"
  "completed (hooked now r t) = completed t"
  using hooked_cases [of now r t] by (auto simp add: pre_save_fields)

lemma hooked_completedAt:
  "completedAt (hooked now r t) = completedAt (pre_save now (completed t \<noteq> completed r) t)"
  using hooked_cases [of now r t] by auto

text \<open>
  A save keeps the pair consistent when the loaded document was consistent and the
  handler did not write \<open>completedAt\<close> itself.
\<close>

lemma hooked_completion_ok:
  assumes "completion_ok r" and "completedAt t = completedAt r"
  shows "completion_ok (hooked now r t)"
proof (cases "completed t = completed r")
  case True
  then show ?thesis
    using assms by (simp add: completion_ok_def hooked_completedAt hooked_fields pre_save_unmodified)
next
  case False
  then show ?thesis
    by (simp add: completion_ok_def hooked_completedAt hooked_fields pre_save_completedAt
        split: option.splits)
qed

subsection \<open>Toggle\<close>










subsection \<open>Create and update keep the pair consistent\<close>

lemma create_completion_ok:
  assumes "create L now caller b db = (Success st m t, db')"
  shows "\<not> completed t \<and> completedAt t = None \<and> completion_ok t \<and> user t = caller \<and> db' = db @ [t]"
  using assms
  by (auto simp add: create_def Let_def pre_save_unmodified completion_ok_def split: if_splits)

text \<open>The spec's scenario: a todo created from the title alone is the pending sample todo.\<close>

lemma create_sample:
  "create sample_lib 0 1
     \<lparr>b_title = Some ''buy milk'', b_description = None, b_priority = None, b_dueDate = None,
      b_category = None, b_tags = None\<rparr> []
   = (Success 201 (Some ''Todo created successfully'') (sample_todo 1 1 ''buy milk'' ''medium'' 0),
      [sample_todo 1 1 ''buy milk'' ''medium'' 0])"
  by (simp add: create_def truthy_def or_else_def trim_def is_ws_def fresh_id_def validate_def
      pre_save_def sample_todo_def Let_def)

lemma assign_completedAt: "completedAt (assign L u r) = completedAt r"
  by (simp add: assign_def)

lemma update_completion_ok:
  assumes "findById db i = Some r" and "completion_ok r"
    and "update L now caller i u db = (Success st m t, db')"
  shows "completion_ok t \<and> db' = store t db"
  using assms
  by (auto simp add: update_def checkResourceOwnership_def Let_def
      hooked_completion_ok assign_completedAt split: if_splits)

subsection \<open>Bulk update\<close>

text \<open>
  The bulk write sets \<open>completed\<close> and nothing else of the pair: a pending todo that
  it completes is left with \<open>completedAt = null\<close>.
\<close>

lemma set_fields_breaks_pair:
  assumes "\<not> completed t" and "completedAt t = None"
  shows "\<not> completion_ok (set_fields now \<lparr>bu_completed = Some True, bu_priority = p, bu_category = c\<rparr> t)"
  using assms by (simp add: set_fields_def completion_ok_def)

text \<open>
  C1. The invariant "\<open>completedAt\<close> is non-null if and only if \<open>completed\<close> is true"
  is kept by create, single update and toggle (\<open>create_completion_ok\<close>,
  \<open>update_completion_ok\<close> and the theorem of C8), which all go through \<open>save\<close>
  and its hook. It is broken by the bulk update: user 1 owns the pending todo 1 and sends
  ids \<open>[1]\<close> with updates \<open>{completed: true}\<close> at time 7. The reply is 200 with
  \<open>modifiedCount = 1\<close>, and the stored todo is completed with \<open>completedAt = null\<close>.
\<close>

theorem bulk_update_skips_hook:
  "bulk_update 7 1 (Some [1])
     (Some \<lparr>bu_completed = Some True, bu_priority = None, bu_category = None\<rparr>)
     [sample_todo 1 1 ''buy milk'' ''medium'' 0]
   = (Success 200 None 1,
      [(sample_todo 1 1 ''buy milk'' ''medium'' 0)\<lparr>completed := True, updatedAt := 7\<rparr>])
   \<and> completed ((sample_todo 1 1 ''buy milk'' ''medium'' 0)\<lparr>completed := True, updatedAt := 7\<rparr>)
   \<and> completedAt ((sample_todo 1 1 ''buy milk'' ''medium'' 0)\<lparr>completed := True, updatedAt := 7\<rparr>) = None"
  by (simp add: bulk_update_def selected_def set_fields_def sample_todo_def)

section \<open>Bulk delete\<close>

lemma length_filter_split: "length (filter P xs) = length xs - length (filter (\<lambda>x. \<not> P x) xs)"
  using sum_length_filter_compl [of P xs] by simp

text \<open>
  The claim as stated covers every list of ids. The handler's guard rejects the empty
  list: the reply is 400 with an error and no \<open>deletedCount\<close>, not a success with
  count 0.
\<close>

theorem bulk_delete_empty_list_rejected:
  "bulk_delete 1 (Some []) [sample_todo 1 1 ''buy milk'' ''medium'' 0]
   = (Failure 400 ''Todo IDs array is required'', [sample_todo 1 1 ''buy milk'' ''medium'' 0])"
  by (simp add: bulk_delete_def)

text \<open>
  C5, as amended. For every caller and every non-empty list of ids, bulk delete answers
  200, removes exactly the todos whose id is in the list and whose owner is the caller,
  and reports their number as \<open>deletedCount\<close>, which is the number of documents the
  collection lost. The todos of other users all stay, and when no listed id belongs to
  the caller the count is 0 and the collection is unchanged. The empty list, and a body
  whose \<open>ids\<close> is missing or no array (\<open>None\<close>), is answered 400 with the error
  "Todo IDs array is required", and nothing is deleted.
\<close>

theorem bulk_delete_owned_only:
  "(ids \<noteq> [] \<longrightarrow>
      (\<exists>n db'. bulk_delete caller (Some ids) db = (Success 200 None n, db')
         \<and> db' = filter (\<lambda>t. \<not> (tid t \<in> set ids \<and> user t = caller)) db
         \<and> n = length (filter (\<lambda>t. tid t \<in> set ids \<and> user t = caller) db)
         \<and> n = length db - length db'
         \<and> filter (\<lambda>t. user t \<noteq> caller) db' = filter (\<lambda>t. user t \<noteq> caller) db
         \<and> ((\<forall>t \<in> set db. tid t \<in> set ids \<longrightarrow> user t \<noteq> caller) \<longrightarrow> n = 0 \<and> db' = db)))
   \<and> bulk_delete caller (Some []) db = (Failure 400 ''Todo IDs array is required'', db)
   \<and> bulk_delete caller None db = (Failure 400 ''Todo IDs array is required'', db)"
proof (intro conjI impI)
  assume ids: "ids \<noteq> []"
  let ?sel = "\<lambda>t. tid t \<in> set ids \<and> user t = caller"
  have run: "bulk_delete caller (Some ids) db
      = (Success 200 None (length (filter ?sel db)), filter (\<lambda>t. \<not> ?sel t) db)"
    using ids by (simp add: bulk_delete_def selected_def [abs_def])
  have others: "filter (\<lambda>t. user t \<noteq> caller) (filter (\<lambda>t. \<not> ?sel t) db)
      = filter (\<lambda>t. user t \<noteq> caller) db"
    by (induction db) auto
  have none: "(\<forall>t \<in> set db. tid t \<in> set ids \<longrightarrow> user t \<noteq> caller) \<longrightarrow>
      length (filter ?sel db) = 0 \<and> filter (\<lambda>t. \<not> ?sel t) db = db"
    by (induction db) auto
  show "\<exists>n db'. bulk_delete caller (Some ids) db = (Success 200 None n, db')
         \<and> db' = filter (\<lambda>t. \<not> ?sel t) db
         \<and> n = length (filter ?sel db)
         \<and> n = length db - length db'
         \<and> filter (\<lambda>t. user t \<noteq> caller) db' = filter (\<lambda>t. user t \<noteq> caller) db
         \<and> ((\<forall>t \<in> set db. tid t \<in> set ids \<longrightarrow> user t \<noteq> caller) \<longrightarrow> n = 0 \<and> db' = db)"
    using run others none length_filter_split [of ?sel db] by simp
next
  show "bulk_delete caller (Some []) db = (Failure 400 ''Todo IDs array is required'', db)"
    by (simp add: bulk_delete_def)
next
  show "bulk_delete caller None db = (Failure 400 ''Todo IDs array is required'', db)"
    by (simp add: bulk_delete_def)
qed

text \<open>
  User 1 owns todo 1 and user 9 owns todo 2. Listing both, user 1 deletes todo 1 only
  and is told 1; listing only todo 2, user 1 deletes nothing and is told 0.
\<close>

theorem bulk_delete_owned_only_witness:
  "[1, 2 :: nat] \<noteq> [] \<and> [2 :: nat] \<noteq> []
   \<and> bulk_delete 1 (Some [1, 2])
       [sample_todo 1 1 ''buy milk'' ''medium'' 0, sample_todo 2 9 ''walk dog'' ''low'' 1]
     = (Success 200 None 1, [sample_todo 2 9 ''walk dog'' ''low'' 1])
   \<and> bulk_delete 1 (Some [2])
       [sample_todo 1 1 ''buy milk'' ''medium'' 0, sample_todo 2 9 ''walk dog'' ''low'' 1]
     = (Success 200 None 0,
        [sample_todo 1 1 ''buy milk'' ''medium'' 0, sample_todo 2 9 ''walk dog'' ''low'' 1])"
proof -
  let ?db = "[sample_todo 1 1 ''buy milk'' ''medium'' 0, sample_todo 2 9 ''walk dog'' ''low'' 1]"
  have h: "[1, 2 :: nat] \<noteq> []" "[2 :: nat] \<noteq> []" by simp_all
  have kept: "filter (\<lambda>t. \<not> (tid t \<in> set [1, 2] \<and> user t = 1)) ?db
      = [sample_todo 2 9 ''walk dog'' ''low'' 1]"
    by (simp add: sample_todo_def)
  have foreign: "\<forall>t \<in> set ?db. tid t \<in> set [2] \<longrightarrow> user t \<noteq> 1"
    by (simp add: sample_todo_def)
  from bulk_delete_owned_only [of "[1, 2]" 1 ?db] h(1) kept
  have both: "bulk_delete 1 (Some [1, 2]) ?db
      = (Success 200 None 1, [sample_todo 2 9 ''walk dog'' ''low'' 1])"
    by auto
  from bulk_delete_owned_only [of "[2]" 1 ?db] h(2) foreign
  have only: "bulk_delete 1 (Some [2]) ?db = (Success 200 None 0, ?db)"
    by auto
  from h both only show ?thesis by simp
qed

section \<open>Listing: order, page and count\<close>

subsection \<open>The priority order is the byte order of the stored strings\<close>

lemma str_less_irrefl: "\<not> str_less s s"
  by (induction s) auto

lemma str_less_trans: "str_less a b \<Longrightarrow> str_less b c \<Longrightarrow> str_less a c"
proof (induction a b arbitrary: c rule: str_less.induct)
  case 1
  then show ?case by simp
next
  case (2 y ys)
  then show ?case by (cases c) simp_all
next
  case (3 x xs)
  then show ?case by simp
next
  case (4 x xs y ys)
  show ?case
  proof (cases c)
    case Nil
    with 4 show ?thesis by simp
  next
    case (Cons z zs)
    with 4 show ?thesis by (auto intro: less_trans)
  qed
qed

lemma str_less_total: "str_less a b \<or> a = b \<or> str_less b a"
proof (induction a b rule: str_less.induct)
  case (4 x xs y ys)
  have "(of_char x :: nat) < of_char y \<or> x = y \<or> (of_char y :: nat) < of_char x"
    by (metis linorder_neqE_nat of_char_eq_iff)
  with 4 show ?case by auto
qed simp_all

lemma precedes_priority_total: "precedes By_priority a b \<or> precedes By_priority b a"
  using str_less_total [of "priority a" "priority b"] by auto

lemma precedes_priority_trans:
  "precedes By_priority a b \<Longrightarrow> precedes By_priority b c \<Longrightarrow> precedes By_priority a c"
  using str_less_trans [of "priority c" "priority b" "priority a"]
  by (auto simp add: str_less_irrefl)

subsection \<open>Insertion sort\<close>

lemma set_insert_by: "set (insert_by le x xs) = insert x (set xs)"
  by (induction xs) auto

lemma sorted_insert_by:
  assumes total: "\<And>a b. le a b \<or> le b a" and trans: "\<And>a b c. le a b \<Longrightarrow> le b c \<Longrightarrow> le a c"
  shows "sorted_wrt le xs \<Longrightarrow> sorted_wrt le (insert_by le x xs)"
proof (induction xs)
  case Nil
  then show ?case by simp
next
  case (Cons y ys)
  show ?case
  proof (cases "le x y")
    case True
    then show ?thesis using Cons.prems trans by auto
  next
    case False
    then have "le y x" using total by blast
    then show ?thesis using Cons False by (auto simp add: set_insert_by)
  qed
qed

lemma sorted_sort_by:
  assumes total: "\<And>a b. le a b \<or> le b a" and trans: "\<And>a b c. le a b \<Longrightarrow> le b c \<Longrightarrow> le a c"
  shows "sorted_wrt le (sort_by le xs)"
  unfolding sort_by_def
  by (induction xs) (simp_all add: sorted_insert_by [OF total trans])

text \<open>
  Whatever the collection, the list sorted for \<open>sortBy=priority\<close> is ordered by the
  stored priority strings, greatest first, and a todo of priority \<open>high\<close> never stands
  before one of priority \<open>medium\<close> or \<open>low\<close>.
\<close>

lemma priority_sort_is_bytewise:
  "sorted_wrt (precedes By_priority) (sort_by (precedes By_priority) xs)"
  by (rule sorted_sort_by, rule precedes_priority_total, erule precedes_priority_trans, assumption)

lemma high_after_medium:
  assumes "i < j" and "j < length (sort_by (precedes By_priority) xs)"
  shows "\<not> (priority (sort_by (precedes By_priority) xs ! i) = ''high''
          \<and> priority (sort_by (precedes By_priority) xs ! j) \<in> {''medium'', ''low''})"
proof
  let ?ys = "sort_by (precedes By_priority) xs"
  assume a: "priority (?ys ! i) = ''high'' \<and> priority (?ys ! j) \<in> {''medium'', ''low''}"
  have "precedes By_priority (?ys ! i) (?ys ! j)"
    using priority_sort_is_bytewise assms by (simp add: sorted_wrt_iff_nth_less)
  with a show False by auto
qed

text \<open>
  C2. The spec's scenario: three todos with priorities low, medium, high, listed with
  \<open>sortBy=priority\<close>. The claim asks for the order high, medium, low; the sort document
  \<open>{priority: -1, createdAt: -1}\<close> orders the stored strings, and the list comes back
  medium, low, high.
\<close>

theorem priority_sort_medium_low_high:
  "getUserTodos sample_lib 1 (no_filters\<lparr>f_sortBy := Some ''priority''\<rparr>) three_todos
   = Inr \<lparr>todos = [sample_todo 2 1 ''walk dog'' ''medium'' 2, sample_todo 1 1 ''buy milk'' ''low'' 1,
                   sample_todo 3 1 ''pay rent'' ''high'' 3],
          total = 3, limit = 50, skip = 0, hasMore = False\<rparr>"
  by (simp add: getUserTodos_def build_query_def no_filters_def truthy_def date_bound_def
      effective_limit_def effective_skip_def parseInt_def or_default_def find_page_def
      countDocuments_def sort_of_def sort_by_def sample_todo_def three_todos_def int64_def
      Let_def)

subsection \<open>What a successful list or search returns\<close>

text \<open>Below \<open>2^53\<close> every natural number is a double.\<close>

lemma halvings_small: "n < 2 ^ 53 \<Longrightarrow> halvings (Suc k) n = 0"
  by simp

lemma to_double_small: "n < 2 ^ 53 \<Longrightarrow> to_double n = Some n"
proof -
  assume small: "n < 2 ^ 53"
  have "halvings (Suc 1023) n = 0" using small by (rule halvings_small)
  then have e: "halvings 1024 n = 0" by simp
  have "(2 :: nat) ^ 53 < 2 ^ 1024" by (rule power_strict_increasing) simp_all
  with small have "\<not> 2 ^ 1024 \<le> n" by linarith
  with e show ?thesis by (simp add: to_double_def Let_def del: power_numeral)
qed

lemma int64_Some: "int64 x = Some k \<Longrightarrow> x = Num k \<and> \<bar>k\<bar> < 2 ^ 63"
  by (cases x) (auto simp add: int64_def split: if_splits)

lemma getUserTodos_page:
  assumes "getUserTodos L userId f db = Inr r"
  shows "\<exists>q l k ts. build_query L userId f = Inr q
       \<and> effective_limit (f_limit f) = Num l \<and> \<bar>l\<bar> < 2 ^ 63
       \<and> effective_skip (f_skip f) = Num k \<and> \<bar>k\<bar> < 2 ^ 63
       \<and> find_page q (sort_of (f_sortBy f)) l k db = Inr ts
       \<and> r = \<lparr>todos = ts, total = int (length (filter q db)),
              limit = l, skip = k,
              hasMore = (int (length (filter q db)) > k + int (length ts))\<rparr>"
proof -
  from assms obtain q where q: "build_query L userId f = Inr q"
    by (auto simp add: getUserTodos_def split: sum.splits)
  from assms q obtain l k where
    l: "int64 (effective_limit (f_limit f)) = Some l"
    and k: "int64 (effective_skip (f_skip f)) = Some k"
    by (auto simp add: getUserTodos_def split: option.splits)
  from assms q l k obtain ts where
    ts: "find_page q (sort_of (f_sortBy f)) l k db = Inr ts"
    and r: "r = \<lparr>todos = ts, total = int (length (filter q db)), limit = l, skip = k,
                 hasMore = (int (length (filter q db)) > k + int (length ts))\<rparr>"
    by (auto simp add: getUserTodos_def Let_def countDocuments_def split: sum.splits)
  from int64_Some [OF l] int64_Some [OF k] q ts r show ?thesis by blast
qed

lemma search_reply:
  assumes "search L caller s lp sp db = Success st m p"
  shows "\<exists>found l k ts. regex_clause L s = Inr found
       \<and> or_default (parseInt lp) 20 = Num l
       \<and> or_default (parseInt sp) 0 = Num k
       \<and> find_page (\<lambda>t. user t = caller \<and> found t) By_createdAt l k db = Inr ts
       \<and> st = 200
       \<and> p = \<lparr>todos = ts, total = int (length (filter (\<lambda>t. user t = caller \<and> found t) db)),
              limit = l, skip = k,
              hasMore = (int (length (filter (\<lambda>t. user t = caller \<and> found t) db))
                          > k + int (length ts)),
              searchQuery = s\<rparr>"
proof -
  from assms obtain found where found: "regex_clause L s = Inr found"
    by (auto simp add: search_def split: sum.splits)
  from assms found obtain l k where
    l: "int64 (or_default (parseInt lp) 20) = Some l"
    and k: "int64 (or_default (parseInt sp) 0) = Some k"
    by (auto simp add: search_def split: option.splits)
  from assms found l k obtain ts where
    ts: "find_page (\<lambda>t. user t = caller \<and> found t) By_createdAt l k db = Inr ts"
    and st: "st = 200"
    and p: "p = \<lparr>todos = ts, total = int (length (filter (\<lambda>t. user t = caller \<and> found t) db)),
                 limit = l, skip = k,
                 hasMore = (int (length (filter (\<lambda>t. user t = caller \<and> found t) db))
                            > k + int (length ts)),
                 searchQuery = s\<rparr>"
    by (auto simp add: search_def Let_def countDocuments_def split: sum.splits)
  from int64_Some [OF l] int64_Some [OF k] found ts st p show ?thesis by blast
qed

text \<open>
  C4. In every result of the list operation and in every successful reply of the search
  operation, \<open>hasMore\<close> is true exactly when \<open>total\<close> is greater than \<open>skip\<close> plus the
  number of todos in the returned page, and \<open>total\<close> is the number of documents of the
  collection that the query selects, whatever the page.
\<close>

theorem hasMore_iff_more_than_page:
  "(getUserTodos L userId f db = Inr r \<longrightarrow>
      hasMore r = (total r > skip r + int (length (todos r)))
      \<and> (\<exists>q. build_query L userId f = Inr q \<and> total r = int (length (filter q db))))
   \<and> (search L caller s lp sp db = Success st m p \<longrightarrow>
      hasMore p = (total p > skip p + int (length (todos p)))
      \<and> (\<exists>found. regex_clause L s = Inr found
            \<and> total p = int (length (filter (\<lambda>t. user t = caller \<and> found t) db))))"
proof (intro conjI impI)
  assume "getUserTodos L userId f db = Inr r"
  from getUserTodos_page [OF this]
  show "hasMore r = (total r > skip r + int (length (todos r)))"
    and "\<exists>q. build_query L userId f = Inr q \<and> total r = int (length (filter q db))"
    by auto
next
  assume "search L caller s lp sp db = Success st m p"
  from search_reply [OF this]
  show "hasMore p = (total p > skip p + int (length (todos p)))"
    and "\<exists>found. regex_clause L s = Inr found
            \<and> total p = int (length (filter (\<lambda>t. user t = caller \<and> found t) db))"
    by auto
qed

text \<open>
  The list operation with limit 2 on three todos: two are returned, \<open>total\<close> is 3 and
  \<open>hasMore\<close> is true. The search for \<open>dog\<close> finds one todo, and \<open>hasMore\<close> is false.
\<close>

theorem hasMore_iff_more_than_page_witness:
  "getUserTodos sample_lib 1 (no_filters\<lparr>f_limit := Some ''2''\<rparr>) three_todos
     = Inr \<lparr>todos = [sample_todo 3 1 ''pay rent'' ''high'' 3, sample_todo 2 1 ''walk dog'' ''medium'' 2],
            total = 3, limit = 2, skip = 0, hasMore = True\<rparr>
   \<and> True = ((3 :: int) > 0 + int (length [sample_todo 3 1 ''pay rent'' ''high'' 3,
                                           sample_todo 2 1 ''walk dog'' ''medium'' 2]))
   \<and> search sample_lib 1 ''dog'' None None three_todos
     = Success 200 None
         \<lparr>todos = [sample_todo 2 1 ''walk dog'' ''medium'' 2], total = 1, limit = 20, skip = 0,
          hasMore = False, searchQuery = ''dog''\<rparr>
   \<and> False = ((1 :: int) > 0 + int (length [sample_todo 2 1 ''walk dog'' ''medium'' 2]))"
proof -
  have g: "getUserTodos sample_lib 1 (no_filters\<lparr>f_limit := Some ''2''\<rparr>) three_todos
     = Inr \<lparr>todos = [sample_todo 3 1 ''pay rent'' ''high'' 3, sample_todo 2 1 ''walk dog'' ''medium'' 2],
            total = 3, limit = 2, skip = 0, hasMore = True\<rparr>"
    by (simp add: getUserTodos_def build_query_def no_filters_def truthy_def date_bound_def
        effective_limit_def effective_skip_def parseInt_def or_default_def find_page_def
        countDocuments_def sort_of_def sort_by_def sample_todo_def three_todos_def Let_def
        is_ws_def in_radix_def digit_of_def digits_value_def signed_def to_double_small
        int64_def)
  have s: "search sample_lib 1 ''dog'' None None three_todos
     = Success 200 None
         \<lparr>todos = [sample_todo 2 1 ''walk dog'' ''medium'' 2], total = 1, limit = 20, skip = 0,
          hasMore = False, searchQuery = ''dog''\<rparr>"
    by (simp add: search_def regex_clause_def sample_lib_def dot_regex_def other_meta_def
        atom_matches_def same_ci_def lower_code_def parseInt_def or_default_def find_page_def
        countDocuments_def sort_by_def sample_todo_def three_todos_def int64_def Let_def)
  from hasMore_iff_more_than_page
    [of sample_lib 1 "no_filters\<lparr>f_limit := Some ''2''\<rparr>" three_todos
      "\<lparr>todos = [sample_todo 3 1 ''pay rent'' ''high'' 3, sample_todo 2 1 ''walk dog'' ''medium'' 2],
        total = 3, limit = 2, skip = 0, hasMore = True\<rparr>"
      1 "''dog''" None None 200 None
      "\<lparr>todos = [sample_todo 2 1 ''walk dog'' ''medium'' 2], total = 1, limit = 20, skip = 0,
        hasMore = False, searchQuery = ''dog''\<rparr>"]
    g s
  show ?thesis by simp
qed

subsection \<open>Limit and skip\<close>















section \<open>Searching\<close>

subsection \<open>Literal patterns\<close>

text \<open>
  On a pattern without metacharacters the fragment engine searches for the pattern
  itself, caselessly: that is the spec's substring match.
\<close>

lemma matches_at_literal:
  "CHR ''.'' \<notin> set s \<Longrightarrow> matches_at atom_matches s x = matches_at same_ci s x"
  by (induction same_ci s x rule: matches_at.induct) (auto simp add: atom_matches_def)

lemma occurs_literal:
  "CHR ''.'' \<notin> set s \<Longrightarrow> occurs atom_matches s x = occurs same_ci s x"
  by (induction x) (simp_all add: matches_at_literal)

lemma dot_regex_literal:
  assumes "\<not> list_ex other_meta s" and "CHR ''.'' \<notin> set s"
  shows "dot_regex s = Some (contains_ci s)"
proof -
  have "occurs atom_matches s = contains_ci s"
    using assms(2) by (auto simp add: contains_ci_def occurs_literal)
  then show ?thesis
    using assms(1) by (simp add: dot_regex_def)
qed

subsection \<open>The search filter and the search route\<close>

lemma newest_page:
  "find_page q By_createdAt lim 0 db
     = Inr (if lim = 0 then sort_by (precedes By_createdAt) (filter q db)
            else take (nat \<bar>lim\<bar>) (sort_by (precedes By_createdAt) (filter q db)))"
  by (simp add: find_page_def)

text \<open>
  C6, as amended. Let the database's engine accept the non-empty search string \<open>s\<close>,
  and let \<open>m\<close> be its caseless regular-expression search for \<open>s\<close>. The list operation
  with \<open>search = s\<close> as its only filter and the search operation select the same
  documents: exactly the caller's todos whose title or description \<open>m\<close> matches.
  \<open>total\<close> counts them, the page holds the newest of them, 50 by default in the list
  operation and 20 in the search operation, which also echoes \<open>s\<close>. Where the engine's
  search for \<open>s\<close> is the caseless substring search (\<open>m = contains_ci s\<close>, as for a
  string without metacharacters), these are the todos that contain \<open>s\<close>.
\<close>

theorem search_selects_regex_matches:
  assumes "regex_compile L s = Some m" and "s \<noteq> []"
  shows "getUserTodos L caller (no_filters\<lparr>f_search := Some s\<rparr>) db
           = Inr \<lparr>todos = take 50 (sort_by (precedes By_createdAt)
                             (filter (\<lambda>t. user t = caller \<and> (m (title t) \<or> m (description t))) db)),
                  total = int (length (filter (\<lambda>t. user t = caller \<and> (m (title t) \<or> m (description t))) db)),
                  limit = 50, skip = 0,
                  hasMore = (int (length (filter (\<lambda>t. user t = caller \<and> (m (title t) \<or> m (description t))) db))
                             > 0 + int (length (take 50 (sort_by (precedes By_createdAt)
                                 (filter (\<lambda>t. user t = caller \<and> (m (title t) \<or> m (description t))) db)))))\<rparr>
       \<and> search L caller s None None db
           = Success 200 None
               \<lparr>todos = take 20 (sort_by (precedes By_createdAt)
                             (filter (\<lambda>t. user t = caller \<and> (m (title t) \<or> m (description t))) db)),
                total = int (length (filter (\<lambda>t. user t = caller \<and> (m (title t) \<or> m (description t))) db)),
                limit = 20, skip = 0,
                hasMore = (int (length (filter (\<lambda>t. user t = caller \<and> (m (title t) \<or> m (description t))) db))
                           > 0 + int (length (take 20 (sort_by (precedes By_createdAt)
                               (filter (\<lambda>t. user t = caller \<and> (m (title t) \<or> m (description t))) db))))),
                searchQuery = s\<rparr>"
proof -
  let ?P = "\<lambda>t. user t = caller \<and> (m (title t) \<or> m (description t))"
  have q: "build_query L caller (no_filters\<lparr>f_search := Some s\<rparr>) = Inr ?P"
    using assms
    by (simp add: build_query_def no_filters_def truthy_def or_else_def regex_clause_def
        date_bound_def)
  have lim: "effective_limit (f_limit (no_filters\<lparr>f_search := Some s\<rparr>)) = Num 50"
    "effective_skip (f_skip (no_filters\<lparr>f_search := Some s\<rparr>)) = Num 0"
    "sort_of (f_sortBy (no_filters\<lparr>f_search := Some s\<rparr>)) = By_createdAt"
    by (simp_all add: no_filters_def effective_limit_def effective_skip_def parseInt_def
        or_default_def sort_of_def)
  have list: "getUserTodos L caller (no_filters\<lparr>f_search := Some s\<rparr>) db
      = Inr \<lparr>todos = take 50 (sort_by (precedes By_createdAt) (filter ?P db)),
             total = int (length (filter ?P db)), limit = 50, skip = 0,
             hasMore = (int (length (filter ?P db))
                        > 0 + int (length (take 50 (sort_by (precedes By_createdAt) (filter ?P db)))))\<rparr>"
    unfolding getUserTodos_def q lim
    by (simp add: newest_page countDocuments_def int64_def)
  have rc: "regex_clause L s = Inr (\<lambda>t. m (title t) \<or> m (description t))"
    using assms(1) by (simp add: regex_clause_def)
  have srch: "search L caller s None None db
      = Success 200 None
          \<lparr>todos = take 20 (sort_by (precedes By_createdAt) (filter ?P db)),
           total = int (length (filter ?P db)), limit = 20, skip = 0,
           hasMore = (int (length (filter ?P db))
                      > 0 + int (length (take 20 (sort_by (precedes By_createdAt) (filter ?P db))))),
           searchQuery = s\<rparr>"
    unfolding search_def rc
    by (simp add: parseInt_def or_default_def newest_page countDocuments_def int64_def)
  show ?thesis using list srch by simp
qed

text \<open>
  The claim as stated has every search string matched as a substring. The string
  \<open>.\<close> is a pattern that matches any character: both operations return all three
  todos of user 1, and none of them contains a dot in its title or description.
\<close>

theorem dot_selects_every_title:
  "search sample_lib 1 ''.'' None None three_todos
     = Success 200 None
         \<lparr>todos = [sample_todo 3 1 ''pay rent'' ''high'' 3, sample_todo 2 1 ''walk dog'' ''medium'' 2,
                   sample_todo 1 1 ''buy milk'' ''low'' 1],
          total = 3, limit = 20, skip = 0, hasMore = False, searchQuery = ''.''\<rparr>
   \<and> getUserTodos sample_lib 1 (no_filters\<lparr>f_search := Some ''.''\<rparr>) three_todos
     = Inr \<lparr>todos = [sample_todo 3 1 ''pay rent'' ''high'' 3, sample_todo 2 1 ''walk dog'' ''medium'' 2,
                     sample_todo 1 1 ''buy milk'' ''low'' 1],
            total = 3, limit = 50, skip = 0, hasMore = False\<rparr>
   \<and> filter (\<lambda>t. user t = 1 \<and> (contains_ci ''.'' (title t) \<or> contains_ci ''.'' (description t)))
        three_todos = []"
  by (simp add: search_def getUserTodos_def build_query_def no_filters_def truthy_def or_else_def
      date_bound_def effective_limit_def effective_skip_def sort_of_def
      regex_clause_def sample_lib_def dot_regex_def other_meta_def
      atom_matches_def same_ci_def lower_code_def contains_ci_def parseInt_def or_default_def
      find_page_def countDocuments_def sort_by_def sample_todo_def three_todos_def Let_def
      int64_def)

text \<open>
  The search string \<open>DOG\<close> has no metacharacter, so the sample engine searches it as a
  caseless substring: both operations return the one todo whose title contains it.
\<close>

theorem search_selects_regex_matches_witness:
  "regex_compile sample_lib ''DOG'' = Some (contains_ci ''DOG'') \<and> ''DOG'' \<noteq> []
   \<and> getUserTodos sample_lib 1 (no_filters\<lparr>f_search := Some ''DOG''\<rparr>) three_todos
     = Inr \<lparr>todos = [sample_todo 2 1 ''walk dog'' ''medium'' 2],
            total = 1, limit = 50, skip = 0, hasMore = False\<rparr>
   \<and> search sample_lib 1 ''DOG'' None None three_todos
     = Success 200 None
         \<lparr>todos = [sample_todo 2 1 ''walk dog'' ''medium'' 2], total = 1, limit = 20, skip = 0,
          hasMore = False, searchQuery = ''DOG''\<rparr>"
proof -
  have h1: "regex_compile sample_lib ''DOG'' = Some (contains_ci ''DOG'')"
    unfolding sample_lib_def
    by (simp add: dot_regex_literal list_ex_iff other_meta_def)
  have h2: "''DOG'' \<noteq> []" by simp
  have sel: "filter (\<lambda>t. user t = 1 \<and> (contains_ci ''DOG'' (title t) \<or> contains_ci ''DOG'' (description t)))
        three_todos = [sample_todo 2 1 ''walk dog'' ''medium'' 2]"
    by (simp add: contains_ci_def same_ci_def lower_code_def sample_todo_def three_todos_def)
  from search_selects_regex_matches [OF h1 h2, of 1 three_todos] h1 h2
  show ?thesis
    unfolding sel by (simp add: sort_by_def)
qed

section \<open>Sessions\<close>

subsection \<open>Finding and storing users\<close>

lemma findUser_uid: "findUser users i = Some u \<Longrightarrow> uid u = i"
  unfolding findUser_def by (induction users) (auto split: if_splits)

lemma findUser_store_user:
  "findUser users i = Some u0 \<Longrightarrow> uid u = i \<Longrightarrow> findUser (store_user u users) i = Some u"
  unfolding findUser_def store_user_def by (induction users) (auto split: if_splits)

subsection \<open>Refresh with a token that is no longer in the set\<close>

lemma validateRefreshToken_removed:
  assumes "verify_refresh A tok \<noteq> Other_error"
    and "\<forall>c u. verify_refresh A tok = Decoded c \<longrightarrow> findUser users (c_userId c) = Some u
           \<longrightarrow> \<not> tokenExists u tok"
  shows "\<exists>e. validateRefreshToken A users (Some tok) = Inl (401, e)"
proof (cases "tok = []")
  case True
  then show ?thesis by (simp add: validateRefreshToken_def truthy_def)
next
  case False
  then have tok: "truthy (Some tok)" "or_else (Some tok) [] = tok"
    by (simp_all add: truthy_def or_else_def)
  show ?thesis
  proof (cases "verify_refresh A tok")
    case (Decoded c)
    show ?thesis
    proof (cases "findUser users (c_userId c)")
      case None
      with Decoded tok show ?thesis by (simp add: validateRefreshToken_def)
    next
      case (Some u)
      with assms(2) Decoded have "\<not> tokenExists u tok" by blast
      with Decoded Some tok show ?thesis by (simp add: validateRefreshToken_def)
    qed
  next
    case TokenExpiredError
    with tok show ?thesis by (simp add: validateRefreshToken_def)
  next
    case JsonWebTokenError
    with tok show ?thesis by (simp add: validateRefreshToken_def)
  next
    case Other_error
    with assms(1) show ?thesis by simp
  qed
qed

lemma removed_token_gone: "\<not> tokenExists (removeRefreshToken tok u) tok"
  by (simp add: tokenExists_def removeRefreshToken_def list_ex_iff)

text \<open>
  After the logout handler has run for the user that a verifying token \<open>tok\<close> names,
  with \<open>tok\<close> in the body, the refresh middleware turns \<open>tok\<close> away.
\<close>

lemma refresh_after_logout:
  assumes "verify_refresh A tok = Decoded c" and "findUser users (c_userId c) = Some u"
    and "tok \<noteq> []"
  shows "\<exists>e. validateRefreshToken A (snd (logout_handler u (Some tok) users)) (Some tok)
           = Inl (401, e)"
proof -
  let ?u = "removeRefreshToken tok u"
  have out: "snd (logout_handler u (Some tok) users) = store_user ?u users"
    using assms(3) by (simp add: logout_handler_def truthy_def or_else_def)
  have "uid ?u = c_userId c"
    using findUser_uid [OF assms(2)] by (simp add: removeRefreshToken_def)
  with assms(2) have found: "findUser (store_user ?u users) (c_userId c) = Some ?u"
    by (rule findUser_store_user)
  show ?thesis
    unfolding out
  proof (rule validateRefreshToken_removed)
    show "verify_refresh A tok \<noteq> Other_error" using assms(1) by simp
    show "\<forall>c' u'. verify_refresh A tok = Decoded c'
            \<longrightarrow> findUser (store_user ?u users) (c_userId c') = Some u'
            \<longrightarrow> \<not> tokenExists u' tok"
      using assms(1) found removed_token_gone by auto
  qed
qed

text \<open>
  C3. Let \<open>tok\<close> be a refresh token that is not in the active set of the user it names:
  whenever it verifies to a payload and that payload's user exists, the user's set does
  not hold \<open>tok\<close>. Then POST /api/auth/refresh with \<open>tok\<close> answers 401, issues no token
  pair and leaves the users as they are; this covers the token whose signature is valid
  and that has not expired. The first hypothesis sets aside a verification that throws an
  error other than the two the token library raises for a bad or expired token, which a
  token signed by \<open>generateTokens\<close> cannot cause.
\<close>

theorem refresh_rejects_removed_token:
  assumes "verify_refresh A tok \<noteq> Other_error"
    and "\<forall>c u. verify_refresh A tok = Decoded c \<longrightarrow> findUser users (c_userId c) = Some u
           \<longrightarrow> \<not> tokenExists u tok"
  shows "\<exists>e. refresh A now (Some tok) users = (Failure 401 e, users)"
proof -
  from validateRefreshToken_removed [OF assms]
  obtain e where "validateRefreshToken A users (Some tok) = Inl (401, e)" by blast
  then show ?thesis by (simp add: refresh_def)
qed

text \<open>
  Alice holds \<open>r1\<close>, which verifies and has not expired. Before she logs out, a refresh
  with \<open>r1\<close> succeeds and rotates the token. She logs out with \<open>r1\<close> at time 10: the
  token leaves her set, and a refresh with \<open>r1\<close> at time 20 is answered 401.
\<close>

theorem refresh_rejects_removed_token_witness:
  "refresh sample_auth 20 (Some ''r1'') [alice]
     = (Success 200 (Some ''Token refreshed successfully'') (''a2'', ''r2''),
        [alice\<lparr>refreshTokens := [(''r2'', 20)]\<rparr>])
   \<and> logout sample_auth 10 (Some ''Bearer a1'') (Some ''r1'') [alice]
     = (Success 200 (Some ''Logout successful'') (), [alice\<lparr>refreshTokens := [], lastActive := 10\<rparr>])
   \<and> verify_refresh sample_auth ''r1'' = Decoded \<lparr>c_userId = 1, c_type = Some ''refresh''\<rparr>
   \<and> \<not> tokenExists (alice\<lparr>refreshTokens := [], lastActive := 10\<rparr>) ''r1''
   \<and> refresh sample_auth 20 (Some ''r1'') [alice\<lparr>refreshTokens := [], lastActive := 10\<rparr>]
     = (Failure 401 ''Invalid refresh token'', [alice\<lparr>refreshTokens := [], lastActive := 10\<rparr>])"
proof -
  let ?U = "[alice\<lparr>refreshTokens := [], lastActive := 10\<rparr>]"
  have before: "refresh sample_auth 20 (Some ''r1'') [alice]
     = (Success 200 (Some ''Token refreshed successfully'') (''a2'', ''r2''),
        [alice\<lparr>refreshTokens := [(''r2'', 20)]\<rparr>])"
    by (simp add: refresh_def validateRefreshToken_def truthy_def or_else_def sample_auth_def
        findUser_def alice_def tokenExists_def generateTokens_def removeRefreshToken_def
        addRefreshToken_def store_user_def Let_def)
  have out: "logout sample_auth 10 (Some ''Bearer a1'') (Some ''r1'') [alice]
     = (Success 200 (Some ''Logout successful'') (), ?U)"
    by (simp add: logout_def authenticate_def logout_handler_def truthy_def or_else_def
        sample_auth_def findUser_def alice_def updateLastActive_def removeRefreshToken_def
        store_user_def Let_def)
  have v: "verify_refresh sample_auth ''r1'' = Decoded \<lparr>c_userId = 1, c_type = Some ''refresh''\<rparr>"
    by (simp add: sample_auth_def)
  have h1: "verify_refresh sample_auth ''r1'' \<noteq> Other_error"
    by (simp add: v)
  have gone: "\<not> tokenExists (alice\<lparr>refreshTokens := [], lastActive := 10\<rparr>) ''r1''"
    by (simp add: tokenExists_def)
  have h2: "\<forall>c u. verify_refresh sample_auth ''r1'' = Decoded c \<longrightarrow> findUser ?U (c_userId c) = Some u
           \<longrightarrow> \<not> tokenExists u ''r1''"
    by (auto simp add: findUser_def tokenExists_def split: if_splits)
  from refresh_rejects_removed_token [OF h1 h2, of 20]
  obtain e where r: "refresh sample_auth 20 (Some ''r1'') ?U = (Failure 401 e, ?U)" by blast
  have "refresh sample_auth 20 (Some ''r1'') ?U = (Failure 401 ''Invalid refresh token'', ?U)"
    by (simp add: refresh_def validateRefreshToken_def truthy_def or_else_def sample_auth_def
        findUser_def alice_def tokenExists_def Let_def)
  with r before out v gone show ?thesis by simp
qed

subsection \<open>Logout without a refresh token\<close>

lemma authenticate_passes:
  assumes "authenticate A now h users = (Inr u, users')"
  shows "\<exists>u0. findUser users (uid u) = Some u0 \<and> u = updateLastActive now u0
              \<and> users' = store_user u users"
proof -
  from assms obtain c :: claims and u0 where
    found: "findUser users (c_userId c) = Some u0"
    and u: "u = updateLastActive now u0"
    and stored: "users' = store_user (updateLastActive now u0) users"
    by (auto simp add: authenticate_def Let_def split: option.splits if_splits verified.splits)
  have "uid u0 = c_userId c" using found by (rule findUser_uid)
  then have "uid u = c_userId c" by (simp add: u updateLastActive_def)
  with found u stored show ?thesis by auto
qed

text \<open>
  C10. For a request that passes \<open>authenticate\<close> as user \<open>u\<close>, a logout whose body has
  no \<open>refreshToken\<close> field answers 200 with the message \<open>Logout successful\<close>; the
  handler writes nothing, so the users are as \<open>authenticate\<close> left them, and the
  caller's stored refresh tokens are those stored before the request.
\<close>

theorem logout_without_refresh_token:
  assumes "authenticate A now h users = (Inr u, users')"
  shows "logout A now h None users = (Success 200 (Some ''Logout successful'') (), users')
       \<and> (\<exists>u0. findUser users (uid u) = Some u0 \<and> findUser users' (uid u) = Some u
              \<and> refreshTokens u = refreshTokens u0)"
proof -
  from authenticate_passes [OF assms] obtain u0 where
    u0: "findUser users (uid u) = Some u0" "u = updateLastActive now u0"
      "users' = store_user u users"
    by blast
  have a: "logout A now h None users = (Success 200 (Some ''Logout successful'') (), users')"
    using assms by (simp add: logout_def logout_handler_def truthy_def)
  have b: "findUser users' (uid u) = Some u"
    unfolding u0(3) using u0(1) by (rule findUser_store_user) simp
  have c: "refreshTokens u = refreshTokens u0"
    by (simp add: u0(2) updateLastActive_def)
  from a b c u0(1) show ?thesis by blast
qed

text \<open>Alice, authenticated by \<open>a1\<close>, logs out with an empty body and keeps \<open>r1\<close>.\<close>

theorem logout_without_refresh_token_witness:
  "authenticate sample_auth 10 (Some ''Bearer a1'') [alice]
     = (Inr (alice\<lparr>lastActive := 10\<rparr>), [alice\<lparr>lastActive := 10\<rparr>])
   \<and> logout sample_auth 10 (Some ''Bearer a1'') None [alice]
     = (Success 200 (Some ''Logout successful'') (), [alice\<lparr>lastActive := 10\<rparr>])
   \<and> refreshTokens (alice\<lparr>lastActive := 10\<rparr>) = [(''r1'', 0)]"
proof -
  have h: "authenticate sample_auth 10 (Some ''Bearer a1'') [alice]
     = (Inr (alice\<lparr>lastActive := 10\<rparr>), [alice\<lparr>lastActive := 10\<rparr>])"
    by (simp add: authenticate_def sample_auth_def findUser_def alice_def updateLastActive_def
        store_user_def Let_def)
  have t: "refreshTokens (alice\<lparr>lastActive := 10\<rparr>) = [(''r1'', 0)]"
    by (simp add: alice_def)
  from logout_without_refresh_token [OF h] h t show ?thesis by simp
qed

section \<open>Registration\<close>

lemma findOne_Some:
  assumes "u \<in> set users" and "email u = e \<or> username u = n"
  shows "\<exists>x. findOne e n users = Some x \<and> x \<in> set users \<and> (email x = e \<or> username x = n)"
proof (cases "findOne e n users")
  case None
  then show ?thesis using assms by (auto simp add: findOne_def find_None_iff)
next
  case (Some x)
  then show ?thesis by (auto simp add: findOne_def find_Some_iff)
qed

text \<open>
  C9. When some existing user has the email or the username of a registration attempt,
  the attempt is answered 400, the users stay as they are (no user is created) and no
  token pair is issued. For an attempt that carries all five required fields the error
  is the duplicate-field error, "User with this email already exists" or "User with
  this username already exists": the email one when every user with that username also
  has that email (as when the same registration is sent twice), the username one when
  no user has that email (same username, different email).
\<close>

theorem register_rejects_duplicate:
  assumes "u \<in> set users"
    and "email u = or_else (r_email b) [] \<or> username u = or_else (r_username b) []"
  shows "\<exists>msg. register A now b users = (Failure 400 msg, users)
       \<and> (truthy (r_username b) \<and> truthy (r_email b) \<and> truthy (r_firstName b)
            \<and> truthy (r_lastName b) \<and> truthy (r_password b) \<longrightarrow>
          (msg = ''User with this email already exists''
             \<or> msg = ''User with this username already exists'')
          \<and> ((\<forall>x \<in> set users. username x = or_else (r_username b) []
                  \<longrightarrow> email x = or_else (r_email b) [])
               \<longrightarrow> msg = ''User with this email already exists'')
          \<and> ((\<forall>x \<in> set users. email x \<noteq> or_else (r_email b) [])
               \<longrightarrow> msg = ''User with this username already exists''))"
proof (cases "truthy (r_username b) \<and> truthy (r_email b) \<and> truthy (r_firstName b)
            \<and> truthy (r_lastName b) \<and> truthy (r_password b)")
  case False
  then have "register A now b users = (Failure 400 ''All fields are required'', users)"
    by (auto simp add: register_def)
  with False show ?thesis by blast
next
  case True
  from findOne_Some [OF assms] obtain x where
    x: "findOne (or_else (r_email b) []) (or_else (r_username b) []) users = Some x"
      "x \<in> set users"
      "email x = or_else (r_email b) [] \<or> username x = or_else (r_username b) []"
    by blast
  show ?thesis
  proof (cases "email x = or_else (r_email b) []")
    case e: True
    have "register A now b users = (Failure 400 ''User with this email already exists'', users)"
      using True x(1) e by (simp add: register_def)
    with x(2) e show ?thesis by auto
  next
    case e: False
    have "register A now b users = (Failure 400 ''User with this username already exists'', users)"
      using True x(1) e by (simp add: register_def)
    with x(2,3) e show ?thesis by auto
  qed
qed

text \<open>
  The spec's scenario: registering alice at time 0 succeeds with 201 and the pair
  \<open>a1\<close>, \<open>r1\<close>; the same registration again fails on the email; with another email it
  fails on the username.
\<close>

theorem register_rejects_duplicate_witness:
  "register sample_auth 0 alice_body []
     = (Success 201 (Some ''User registered successfully'') (alice, ''a1'', ''r1''), [alice])
   \<and> alice \<in> set [alice]
   \<and> email alice = or_else (r_email alice_body) []
   \<and> register sample_auth 5 alice_body [alice]
     = (Failure 400 ''User with this email already exists'', [alice])
   \<and> register sample_auth 5 (alice_body\<lparr>r_email := Some ''al@y.org''\<rparr>) [alice]
     = (Failure 400 ''User with this username already exists'', [alice])"
proof -
  have first: "register sample_auth 0 alice_body []
     = (Success 201 (Some ''User registered successfully'') (alice, ''a1'', ''r1''), [alice])"
    by (simp add: register_def new_user_def alice_body_def truthy_def or_else_def findOne_def
        fresh_uid_def sample_auth_def generateTokens_def addRefreshToken_def alice_def Let_def)
  have m: "alice \<in> set [alice]" by simp
  have e: "email alice = or_else (r_email alice_body) []"
    by (simp add: alice_def alice_body_def or_else_def)
  have n: "username alice = or_else (r_username (alice_body\<lparr>r_email := Some ''al@y.org''\<rparr>)) []"
    by (simp add: alice_def alice_body_def or_else_def)
  have all: "truthy (r_username alice_body) \<and> truthy (r_email alice_body)
      \<and> truthy (r_firstName alice_body) \<and> truthy (r_lastName alice_body)
      \<and> truthy (r_password alice_body)"
    by (simp add: alice_body_def truthy_def)
  have same: "\<forall>x \<in> set [alice]. username x = or_else (r_username alice_body) []
      \<longrightarrow> email x = or_else (r_email alice_body) []"
    by (simp add: alice_def alice_body_def or_else_def)
  have other: "\<forall>x \<in> set [alice]. email x \<noteq> or_else (r_email (alice_body\<lparr>r_email := Some ''al@y.org''\<rparr>)) []"
    by (simp add: alice_def or_else_def)
  from register_rejects_duplicate [of alice "[alice]" alice_body sample_auth 5, OF m disjI1 [OF e]]
    all same
  have second: "register sample_auth 5 alice_body [alice]
     = (Failure 400 ''User with this email already exists'', [alice])"
    by auto
  from register_rejects_duplicate
    [of alice "[alice]" "alice_body\<lparr>r_email := Some ''al@y.org''\<rparr>" sample_auth 5, OF m disjI2 [OF n]]
    all other
  have third: "register sample_auth 5 (alice_body\<lparr>r_email := Some ''al@y.org''\<rparr>) [alice]
     = (Failure 400 ''User with this username already exists'', [alice])"
    by (auto simp add: truthy_def)
  from first m e second third show ?thesis by simp
qed

end
